theory Spec2Isabelle
  imports Main "HOL-Library.Char_ord" "HOL-Library.List_Lexorder" "HOL-Library.AList"
begin

section \<open>Python values, exceptions and truth\<close>

text \<open>
  A comparison returns \<open>True\<close>, \<open>False\<close> or the sentinel \<open>NotImplemented\<close>; the
  abstract methods of \<open>Sortable\<close> have the body \<open>pass\<close> and return \<open>None\<close>.
  Exceptions are values: the \<open>TypeError\<close> of \<open>__init_subclass__\<close>, the one Python raises
  on instantiating a class with abstract methods, the one of an unsupported operator,
  \<open>RecursionError\<close> when the call stack is exhausted, and \<open>AttributeError\<close>.
\<close>

datatype pyval = PBool bool | NotImplemented | PNone

datatype type_error = Must_define_eq_or_ne | Abstract_class | Not_supported

datatype pyerr = TypeError type_error | RecursionError | AttributeError

type_synonym result = "pyerr + pyval"

text \<open>
  The truth value of an object. \<open>core.py\<close> tests every result against \<open>NotImplemented\<close>
  before it takes its truth value, so the second equation is never reached from the code.
\<close>

fun truthy :: "pyval \<Rightarrow> bool" where
  "truthy (PBool b) = b"
| "truthy NotImplemented = True"
| "truthy PNone = False"

definition py_not :: "pyval \<Rightarrow> pyval" where
  "py_not v = PBool (\<not> truthy v)"

text \<open>\<open>x and y\<close> and \<open>x or y\<close>: the right operand is the outcome of an expression that
  is only evaluated when the left one does not decide.\<close>

definition py_and :: "pyval \<Rightarrow> result \<Rightarrow> result" where
  "py_and x y = (if truthy x then y else Inr x)"

definition py_or :: "pyval \<Rightarrow> result \<Rightarrow> result" where
  "py_or x y = (if truthy x then Inr x else y)"

section \<open>Classes\<close>

text \<open>
  The type \<open>'a\<close> is the type of object references: \<open>a is b\<close> is \<open>a = b\<close>.
  A function stored in a class is the abstract method of \<open>Sortable\<close>, a method written by
  the author of a class (\<open>Def\<close>, a function of \<open>self\<close> and \<open>other\<close>), or one of the
  fourteen functions of \<open>core.py\<close>. A class has its own namespace, one base class (none
  for \<open>Sortable\<close>) and the set \<open>__abstractmethods__\<close>.
\<close>

datatype 'a func =
    Abstractmethod
  | Def "'a \<Rightarrow> 'a \<Rightarrow> pyval"
  | Ne_from_eq | Eq_from_ne
  | Gt_from_lt | Le_from_lt | Ge_from_lt
  | Ge_from_le | Lt_from_le | Gt_from_le
  | Lt_from_gt | Ge_from_gt | Le_from_gt
  | Le_from_ge | Gt_from_ge | Lt_from_ge

datatype 'a pyclass =
  Class (dict: "(string \<times> 'a func) list") (base: "'a pyclass option")
        (abstractmethods: "string set")

definition compare_ops :: "string list" where
  "compare_ops = [''__lt__'', ''__le__'', ''__gt__'', ''__ge__'']"

definition Sortable :: "'a pyclass" where
  "Sortable = Class
     [(''__eq__'', Abstractmethod), (''__ne__'', Abstractmethod),
      (''__lt__'', Abstractmethod), (''__le__'', Abstractmethod),
      (''__gt__'', Abstractmethod), (''__ge__'', Abstractmethod)]
     None
     {''__eq__'', ''__ne__'', ''__lt__'', ''__le__'', ''__gt__'', ''__ge__''}"

text \<open>\<open>getattr(cls, name, None)\<close>: the class's namespace first, then its base's.\<close>

fun getattr :: "'a pyclass \<Rightarrow> string \<Rightarrow> 'a func option" where
  "getattr (Class d b s) name =
     (case map_of d name of
        Some f \<Rightarrow> Some f
      | None \<Rightarrow> (case b of None \<Rightarrow> None | Some c \<Rightarrow> getattr c name))"

fun setattr :: "'a pyclass \<Rightarrow> string \<Rightarrow> 'a func \<Rightarrow> 'a pyclass" where
  "setattr (Class d b s) name f = Class (AList.update name f d) b s"

text \<open>\<open>getattr(value, '__isabstractmethod__', False)\<close>, where \<open>value\<close> may be \<open>None\<close>.\<close>

fun isabstractmethod :: "'a func option \<Rightarrow> bool" where
  "isabstractmethod (Some Abstractmethod) = True"
| "isabstractmethod _ = False"

definition is_concrete :: "'a pyclass \<Rightarrow> string \<Rightarrow> bool" where
  "is_concrete cls name =
     (case getattr cls name of
        None \<Rightarrow> False
      | Some fn \<Rightarrow> \<not> isabstractmethod (Some fn))"

text \<open>
  \<open>update_abstractmethods\<close>: the names abstract in the base that are still abstract in the
  class, and the names of the class's own namespace bound to an abstract method. The
  metaclass makes the same computation when the class statement completes.
\<close>

definition update_abstractmethods :: "'a pyclass \<Rightarrow> 'a pyclass" where
  "update_abstractmethods cls =
     Class (dict cls) (base cls)
       ((case base cls of
           None \<Rightarrow> {}
         | Some scls \<Rightarrow>
             Set.filter (\<lambda>name. isabstractmethod (getattr cls name)) (abstractmethods scls))
        \<union> Set.filter (\<lambda>name. isabstractmethod (map_of (dict cls) name))
            (set (map fst (dict cls))))"

text \<open>Instantiating a class whose \<open>__abstractmethods__\<close> is not empty raises \<open>TypeError\<close>.\<close>

definition instantiate :: "'a pyclass \<Rightarrow> pyerr + unit" where
  "instantiate cls =
     (if abstractmethods cls = {} then Inr () else Inl (TypeError Abstract_class))"

section \<open>Registration: \<open>Sortable.__init_subclass__\<close>\<close>

definition compare_conversions :: "(string \<times> (string \<times> 'a func) list) list" where
  "compare_conversions =
     [(''__lt__'', [(''__le__'', Le_from_lt), (''__gt__'', Gt_from_lt), (''__ge__'', Ge_from_lt)]),
      (''__ge__'', [(''__lt__'', Lt_from_ge), (''__le__'', Le_from_ge), (''__gt__'', Gt_from_ge)]),
      (''__le__'', [(''__lt__'', Lt_from_le), (''__gt__'', Gt_from_le), (''__ge__'', Ge_from_le)]),
      (''__gt__'', [(''__lt__'', Lt_from_gt), (''__le__'', Le_from_gt), (''__ge__'', Ge_from_gt)])]"

text \<open>The set \<open>concrete\<close> of line 72 and its maximum in the order of Python strings.\<close>

definition concrete_ops :: "'a pyclass \<Rightarrow> string set" where
  "concrete_ops cls =
     set (filter (\<lambda>op. getattr cls op \<noteq> None \<and> is_concrete cls op)
            (map fst (compare_conversions :: (string \<times> (string \<times> 'a func) list) list)))"

definition conversions_of :: "string \<Rightarrow> (string \<times> 'a func) list" where
  "conversions_of root = (case map_of compare_conversions root of Some items \<Rightarrow> items | None \<Rightarrow> [])"

definition ordering_root :: "'a pyclass \<Rightarrow> string" where
  \<comment> \<open>prefer __lt__ to __le__ to __gt__ to __ge__\<close>
  "ordering_root cls = Max (concrete_ops cls)"

definition derive_ordering :: "'a pyclass \<Rightarrow> 'a pyclass" where
  "derive_ordering cls =
     (if \<exists>op \<in> set compare_ops. is_concrete cls op then
        let concrete = concrete_ops cls;
            root = ordering_root cls
        in fold (\<lambda>(opname, opfunc) c.
                   if opname \<notin> concrete then setattr c opname opfunc else c)
                (conversions_of root) cls
      else cls)"

definition init_subclass :: "'a pyclass \<Rightarrow> pyerr + 'a pyclass" where
  "init_subclass cls =
     (let has_eq = is_concrete cls ''__eq__'';
          has_ne = is_concrete cls ''__ne__''
      in if \<not> (has_eq \<or> has_ne) then Inl (TypeError Must_define_eq_or_ne)
         else
           let cls1 = (if \<not> has_ne then setattr cls ''__ne__'' Ne_from_eq else cls);
               cls2 = (if \<not> has_eq then setattr cls1 ''__eq__'' Eq_from_ne else cls1)
           in Inr (update_abstractmethods (derive_ordering cls2)))"

section \<open>The synthesized functions\<close>

text \<open>
  Each function of \<open>core.py\<close> is a function of two callbacks: \<open>method name\<close> is the
  outcome of calling the method \<open>name\<close> of the class of \<open>self\<close> on \<open>(self, other)\<close>
  (\<open>self.__ne__(other)\<close>, \<open>type(self).__lt__(self, other)\<close>), and \<open>cmp op\<close> is the
  outcome of the operator expression \<open>self == other\<close> or \<open>self != other\<close>.
\<close>

datatype cmpop = Py_LT | Py_LE | Py_EQ | Py_NE | Py_GT | Py_GE

definition ne_from_eq :: "(string \<Rightarrow> result) \<Rightarrow> result" where
  \<comment> \<open>Retuurn a != b.  Computed by Sortable from not (a == b).\<close>
  "ne_from_eq method =
     (case method ''__ne__'' of
        Inl e \<Rightarrow> Inl e
      | Inr result \<Rightarrow>
          Inr (if result \<noteq> NotImplemented then py_not result else NotImplemented))"

definition eq_from_ne :: "(string \<Rightarrow> result) \<Rightarrow> result" where
  \<comment> \<open>Retuurn a == b.  Computed by Sortable from not (a != b).\<close>
  "eq_from_ne method =
     (case method ''__eq__'' of
        Inl e \<Rightarrow> Inl e
      | Inr result \<Rightarrow>
          Inr (if result \<noteq> NotImplemented then py_not result else NotImplemented))"

definition gt_from_lt :: "(string \<Rightarrow> result) \<Rightarrow> (cmpop \<Rightarrow> result) \<Rightarrow> result" where
  \<comment> \<open>Return a > b.  Computed by Sortable from (not a < b) and (a != b).\<close>
  "gt_from_lt method cmp =
     (case method ''__lt__'' of
        Inl e \<Rightarrow> Inl e
      | Inr op_result \<Rightarrow>
          if op_result = NotImplemented then Inr op_result
          else py_and (py_not op_result) (cmp Py_NE))"

definition le_from_lt :: "(string \<Rightarrow> result) \<Rightarrow> (cmpop \<Rightarrow> result) \<Rightarrow> result" where
  \<comment> \<open>Return a <= b.  Computed by Sortable from (a < b) or (a == b).\<close>
  "le_from_lt method cmp =
     (case method ''__lt__'' of
        Inl e \<Rightarrow> Inl e
      | Inr op_result \<Rightarrow>
          if op_result = NotImplemented then Inr op_result
          else py_or op_result (cmp Py_EQ))"

definition ge_from_lt :: "(string \<Rightarrow> result) \<Rightarrow> (cmpop \<Rightarrow> result) \<Rightarrow> result" where
  \<comment> \<open>Return a >= b.  Computed by Sortable from (not a < b).\<close>
  "ge_from_lt method cmp =
     (case method ''__lt__'' of
        Inl e \<Rightarrow> Inl e
      | Inr op_result \<Rightarrow>
          if op_result = NotImplemented then Inr op_result
          else Inr (py_not op_result))"

definition ge_from_le :: "(string \<Rightarrow> result) \<Rightarrow> (cmpop \<Rightarrow> result) \<Rightarrow> result" where
  \<comment> \<open>Return a >= b.  Computed by Sortable from (not a <= b) or (a == b).\<close>
  "ge_from_le method cmp =
     (case method ''__le__'' of
        Inl e \<Rightarrow> Inl e
      | Inr op_result \<Rightarrow>
          if op_result = NotImplemented then Inr op_result
          else py_or (py_not op_result) (cmp Py_EQ))"

definition lt_from_le :: "(string \<Rightarrow> result) \<Rightarrow> (cmpop \<Rightarrow> result) \<Rightarrow> result" where
  \<comment> \<open>Return a < b.  Computed by Sortable from (a <= b) and (a != b).\<close>
  "lt_from_le method cmp =
     (case method ''__le__'' of
        Inl e \<Rightarrow> Inl e
      | Inr op_result \<Rightarrow>
          if op_result = NotImplemented then Inr op_result
          else py_and op_result (cmp Py_NE))"

definition gt_from_le :: "(string \<Rightarrow> result) \<Rightarrow> (cmpop \<Rightarrow> result) \<Rightarrow> result" where
  \<comment> \<open>Return a > b.  Computed by Sortable from (not a <= b).\<close>
  "gt_from_le method cmp =
     (case method ''__le__'' of
        Inl e \<Rightarrow> Inl e
      | Inr op_result \<Rightarrow>
          if op_result = NotImplemented then Inr op_result
          else Inr (py_not op_result))"

definition lt_from_gt :: "(string \<Rightarrow> result) \<Rightarrow> (cmpop \<Rightarrow> result) \<Rightarrow> result" where
  \<comment> \<open>Return a < b.  Computed by Sortable from (not a > b) and (a != b).\<close>
  "lt_from_gt method cmp =
     (case method ''__gt__'' of
        Inl e \<Rightarrow> Inl e
      | Inr op_result \<Rightarrow>
          if op_result = NotImplemented then Inr op_result
          else py_and (py_not op_result) (cmp Py_NE))"

definition ge_from_gt :: "(string \<Rightarrow> result) \<Rightarrow> (cmpop \<Rightarrow> result) \<Rightarrow> result" where
  \<comment> \<open>Return a >= b.  Computed by Sortable from (a > b) or (a == b).\<close>
  "ge_from_gt method cmp =
     (case method ''__gt__'' of
        Inl e \<Rightarrow> Inl e
      | Inr op_result \<Rightarrow>
          if op_result = NotImplemented then Inr op_result
          else py_or op_result (cmp Py_EQ))"

definition le_from_gt :: "(string \<Rightarrow> result) \<Rightarrow> (cmpop \<Rightarrow> result) \<Rightarrow> result" where
  \<comment> \<open>Return a <= b.  Computed by Sortable from (not a > b).\<close>
  "le_from_gt method cmp =
     (case method ''__gt__'' of
        Inl e \<Rightarrow> Inl e
      | Inr op_result \<Rightarrow>
          if op_result = NotImplemented then Inr op_result
          else Inr (py_not op_result))"

definition le_from_ge :: "(string \<Rightarrow> result) \<Rightarrow> (cmpop \<Rightarrow> result) \<Rightarrow> result" where
  \<comment> \<open>Return a <= b.  Computed by Sortable from (not a >= b) or (a == b).\<close>
  "le_from_ge method cmp =
     (case method ''__ge__'' of
        Inl e \<Rightarrow> Inl e
      | Inr op_result \<Rightarrow>
          if op_result = NotImplemented then Inr op_result
          else py_or (py_not op_result) (cmp Py_EQ))"

definition gt_from_ge :: "(string \<Rightarrow> result) \<Rightarrow> (cmpop \<Rightarrow> result) \<Rightarrow> result" where
  \<comment> \<open>Return a > b.  Computed by Sortable from (a >= b) and (a != b).\<close>
  "gt_from_ge method cmp =
     (case method ''__ge__'' of
        Inl e \<Rightarrow> Inl e
      | Inr op_result \<Rightarrow>
          if op_result = NotImplemented then Inr op_result
          else py_and op_result (cmp Py_NE))"

definition lt_from_ge :: "(string \<Rightarrow> result) \<Rightarrow> (cmpop \<Rightarrow> result) \<Rightarrow> result" where
  \<comment> \<open>Return a < b.  Computed by Sortable from (not a >= b).\<close>
  "lt_from_ge method cmp =
     (case method ''__ge__'' of
        Inl e \<Rightarrow> Inl e
      | Inr op_result \<Rightarrow>
          if op_result = NotImplemented then Inr op_result
          else Inr (py_not op_result))"

section \<open>Calling a method, and the comparison operators\<close>

fun opname :: "cmpop \<Rightarrow> string" where
  "opname Py_LT = ''__lt__''"
| "opname Py_LE = ''__le__''"
| "opname Py_EQ = ''__eq__''"
| "opname Py_NE = ''__ne__''"
| "opname Py_GT = ''__gt__''"
| "opname Py_GE = ''__ge__''"

fun swapped_op :: "cmpop \<Rightarrow> cmpop" where
  "swapped_op Py_LT = Py_GT"
| "swapped_op Py_LE = Py_GE"
| "swapped_op Py_EQ = Py_EQ"
| "swapped_op Py_NE = Py_NE"
| "swapped_op Py_GT = Py_LT"
| "swapped_op Py_GE = Py_LE"

text \<open>
  \<open>apply_func f self other method cmp\<close> runs the body of the function \<open>f\<close>.
  \<open>call d cls name self other\<close> calls the method \<open>name\<close> of the class \<open>cls\<close> of \<open>self\<close>,
  with \<open>d\<close> stack frames left: at \<open>d = 0\<close> the interpreter raises \<open>RecursionError\<close>.
  \<open>richcompare d cls op v w\<close> is the operator expression \<open>v op w\<close> for two instances of
  the class \<open>cls\<close>: the method of \<open>v\<close>, then the reflected method of \<open>w\<close>, then
  identity for \<open>==\<close> and \<open>!=\<close> and \<open>TypeError\<close> for the ordering operators. A method the
  class does not have counts as \<open>NotImplemented\<close> there.
\<close>

definition apply_func ::
  "'a func \<Rightarrow> 'a \<Rightarrow> 'a \<Rightarrow> (string \<Rightarrow> result) \<Rightarrow> (cmpop \<Rightarrow> result) \<Rightarrow> result" where
  "apply_func f self other method cmp =
     (case f of
        Abstractmethod \<Rightarrow> Inr PNone
      | Def g \<Rightarrow> Inr (g self other)
      | Ne_from_eq \<Rightarrow> ne_from_eq method
      | Eq_from_ne \<Rightarrow> eq_from_ne method
      | Gt_from_lt \<Rightarrow> gt_from_lt method cmp
      | Le_from_lt \<Rightarrow> le_from_lt method cmp
      | Ge_from_lt \<Rightarrow> ge_from_lt method cmp
      | Ge_from_le \<Rightarrow> ge_from_le method cmp
      | Lt_from_le \<Rightarrow> lt_from_le method cmp
      | Gt_from_le \<Rightarrow> gt_from_le method cmp
      | Lt_from_gt \<Rightarrow> lt_from_gt method cmp
      | Ge_from_gt \<Rightarrow> ge_from_gt method cmp
      | Le_from_gt \<Rightarrow> le_from_gt method cmp
      | Le_from_ge \<Rightarrow> le_from_ge method cmp
      | Gt_from_ge \<Rightarrow> gt_from_ge method cmp
      | Lt_from_ge \<Rightarrow> lt_from_ge method cmp)"

fun call :: "nat \<Rightarrow> 'a pyclass \<Rightarrow> string \<Rightarrow> 'a \<Rightarrow> 'a \<Rightarrow> result"
and richcompare :: "nat \<Rightarrow> 'a pyclass \<Rightarrow> cmpop \<Rightarrow> 'a \<Rightarrow> 'a \<Rightarrow> result" where
  "call 0 cls name self other = Inl RecursionError"
| "call (Suc d) cls name self other =
     (case getattr cls name of
        None \<Rightarrow> Inl AttributeError
      | Some f \<Rightarrow>
          apply_func f self other
            (\<lambda>n. call d cls n self other)
            (\<lambda>op. richcompare d cls op self other))"
| "richcompare d cls op v w =
     (case (if getattr cls (opname op) = None then Inr NotImplemented
            else call d cls (opname op) v w) of
        Inl e \<Rightarrow> Inl e
      | Inr res \<Rightarrow>
          if res \<noteq> NotImplemented then Inr res
          else
            (case (if getattr cls (opname (swapped_op op)) = None then Inr NotImplemented
                   else call d cls (opname (swapped_op op)) w v) of
               Inl e \<Rightarrow> Inl e
             | Inr res \<Rightarrow>
                 if res \<noteq> NotImplemented then Inr res
                 else
                   (case op of
                      Py_EQ \<Rightarrow> Inr (PBool (v = w))
                    | Py_NE \<Rightarrow> Inr (PBool (v \<noteq> w))
                    | _ \<Rightarrow> Inl (TypeError Not_supported))))"

section \<open>The classes of \<open>example.py\<close>\<close>

text \<open>An object of the example: its identity and the attributes \<open>name\<close> and \<open>average\<close>.\<close>

record student =
  ident :: nat
  name :: string
  average :: int

definition Person_eq :: "student \<Rightarrow> student \<Rightarrow> pyval" where
  "Person_eq self other = PBool (name self = name other)"

definition Student_le :: "student \<Rightarrow> student \<Rightarrow> pyval" where
  "Student_le self other = PBool (average self \<le> average other)"

text \<open>The class statements: the body of the class, its base, and the hook on it.\<close>

definition class_statement ::
  "(string \<times> 'a func) list \<Rightarrow> 'a pyclass \<Rightarrow> pyerr + 'a pyclass" where
  "class_statement body b = init_subclass (Class body (Some b) {})"

definition Person :: "student pyclass" where
  "Person = Class
     [(''__eq__'', Def Person_eq), (''__ne__'', Ne_from_eq)]
     (Some Sortable)
     {''__lt__'', ''__le__'', ''__gt__'', ''__ge__''}"

definition Student :: "student pyclass" where
  "Student = Class
     [(''__le__'', Def Student_le), (''__lt__'', Lt_from_le),
      (''__gt__'', Gt_from_le), (''__ge__'', Ge_from_le)]
     (Some Person)
     {}"

section \<open>The specification's tables\<close>

text \<open>The six abstract methods of \<open>Sortable\<close>.\<close>

definition relation_names :: "string list" where
  "relation_names = [''__eq__'', ''__ne__'', ''__lt__'', ''__le__'', ''__gt__'', ''__ge__'']"

text \<open>
  The specification's precedence \<open>LT > LE > GT > GE\<close>, and the member of a set of
  relations that comes first in it.
\<close>

definition precedence :: "string list" where
  "precedence = [''__lt__'', ''__le__'', ''__gt__'', ''__ge__'']"

definition highest_precedence :: "string set \<Rightarrow> string option" where
  "highest_precedence S = find (\<lambda>op. op \<in> S) precedence"

text \<open>
  The specification's closed forms, keyed by root and derived relation: \<open>root\<close> is the
  value the root relation returned on the pair, \<open>eq\<close> and \<open>ne\<close> are the outcomes of
  \<open>a == b\<close> and \<open>a != b\<close> on it.
\<close>

definition closed_form :: "pyval \<Rightarrow> result \<Rightarrow> result \<Rightarrow> ((string \<times> string) \<times> result) list" where
  "closed_form root eq ne =
     [((''__lt__'', ''__le__''), py_or root eq),
      ((''__lt__'', ''__gt__''), py_and (py_not root) ne),
      ((''__lt__'', ''__ge__''), Inr (py_not root)),
      ((''__le__'', ''__lt__''), py_and root ne),
      ((''__le__'', ''__gt__''), Inr (py_not root)),
      ((''__le__'', ''__ge__''), py_or (py_not root) eq),
      ((''__gt__'', ''__lt__''), py_and (py_not root) ne),
      ((''__gt__'', ''__le__''), Inr (py_not root)),
      ((''__gt__'', ''__ge__''), py_or root eq),
      ((''__ge__'', ''__lt__''), Inr (py_not root)),
      ((''__ge__'', ''__le__''), py_or (py_not root) eq),
      ((''__ge__'', ''__gt__''), py_and root ne)]"

section \<open>Attributes after registration\<close>

lemma getattr_setattr: "getattr (setattr cls n f) m = (if m = n then Some f else getattr cls m)"
  by (cases cls) (simp add: update_conv')

lemma getattr_update_abstractmethods [simp]:
  "getattr (update_abstractmethods cls) n = getattr cls n"
  by (cases cls) (simp add: update_abstractmethods_def)

lemma is_concrete_setattr:
  "is_concrete (setattr cls n f) m =
     (if m = n then \<not> isabstractmethod (Some f) else is_concrete cls m)"
  by (simp add: is_concrete_def getattr_setattr)

lemma is_concrete_update_abstractmethods [simp]:
  "is_concrete (update_abstractmethods cls) n = is_concrete cls n"
  by (simp add: is_concrete_def)

lemma is_concrete_getattr: "is_concrete cls n \<Longrightarrow> getattr cls n \<noteq> None"
  by (auto simp: is_concrete_def split: option.splits)

lemma op_order:
  "''__ge__'' < ''__gt__''" "''__gt__'' < ''__le__''" "''__le__'' < ''__lt__''"
  by simp_all

lemma compare_ops_set: "set compare_ops = {''__lt__'', ''__le__'', ''__gt__'', ''__ge__''}"
  by (simp add: compare_ops_def)

lemma concrete_ops_iff:
  "op \<in> concrete_ops cls \<longleftrightarrow> op \<in> set compare_ops \<and> is_concrete cls op"
proof -
  have keys: "set (map fst (compare_conversions :: (string \<times> (string \<times> 'a func) list) list))
                = set compare_ops"
    unfolding compare_conversions_def compare_ops_def by (simp add: insert_commute)
  show ?thesis
    unfolding concrete_ops_def set_filter keys
    using is_concrete_getattr[of cls op] by blast
qed

lemma finite_concrete_ops: "finite (concrete_ops cls)"
  by (simp add: concrete_ops_def)

lemma op_le:
  "''__ge__'' \<le> ''__gt__''" "''__ge__'' \<le> ''__le__''" "''__ge__'' \<le> ''__lt__''"
  "''__gt__'' \<le> ''__le__''" "''__gt__'' \<le> ''__lt__''" "''__le__'' \<le> ''__lt__''"
  using op_order by (auto intro: less_imp_le order.strict_trans)

lemma ordering_root_eq:
  assumes "\<exists>op \<in> set compare_ops. is_concrete cls op"
  shows "ordering_root cls =
           (if is_concrete cls ''__lt__'' then ''__lt__''
            else if is_concrete cls ''__le__'' then ''__le__''
            else if is_concrete cls ''__gt__'' then ''__gt__''
            else ''__ge__'')"
proof -
  let ?r = "if is_concrete cls ''__lt__'' then ''__lt__''
            else if is_concrete cls ''__le__'' then ''__le__''
            else if is_concrete cls ''__gt__'' then ''__gt__''
            else ''__ge__''"
  have mem: "?r \<in> concrete_ops cls"
    using assms unfolding concrete_ops_iff compare_ops_set by auto
  have ub: "y \<le> ?r" if "y \<in> concrete_ops cls" for y
    using that op_le unfolding concrete_ops_iff compare_ops_set by auto
  show ?thesis
    unfolding ordering_root_def
    by (rule Max_eqI[OF finite_concrete_ops ub mem])
qed

lemma getattr_fold_setattr:
  "distinct (map fst items) \<Longrightarrow>
   getattr (fold (\<lambda>(opname, opfunc) c.
                    if opname \<notin> C then setattr c opname opfunc else c) items cls) n
     = (case map_of items n of
          Some f \<Rightarrow> if n \<notin> C then Some f else getattr cls n
        | None \<Rightarrow> getattr cls n)"
proof (induction items arbitrary: cls)
  case Nil
  then show ?case by simp
next
  case (Cons it items)
  obtain k f where it: "it = (k, f)" by (cases it)
  from Cons.prems it have notin: "k \<notin> fst ` set items" and dist: "distinct (map fst items)"
    by auto
  from notin have none: "map_of items k = None"
    by (simp add: map_of_eq_None_iff)
  show ?case
    using Cons.IH[OF dist] none
    by (auto simp: it getattr_setattr split: option.splits)
qed

lemma conversions_of_simps:
  "conversions_of ''__lt__'' =
     [(''__le__'', Le_from_lt), (''__gt__'', Gt_from_lt), (''__ge__'', Ge_from_lt)]"
  "conversions_of ''__ge__'' =
     [(''__lt__'', Lt_from_ge), (''__le__'', Le_from_ge), (''__gt__'', Gt_from_ge)]"
  "conversions_of ''__le__'' =
     [(''__lt__'', Lt_from_le), (''__gt__'', Gt_from_le), (''__ge__'', Ge_from_le)]"
  "conversions_of ''__gt__'' =
     [(''__lt__'', Lt_from_gt), (''__le__'', Le_from_gt), (''__ge__'', Ge_from_gt)]"
  by (simp_all add: conversions_of_def compare_conversions_def)

lemma conversions_of_other:
  "r \<notin> set compare_ops \<Longrightarrow> conversions_of r = []"
  by (simp add: conversions_of_def compare_conversions_def compare_ops_def)

lemma compare_ops_cases:
  assumes "r \<in> set compare_ops"
  obtains "r = ''__lt__''" | "r = ''__le__''" | "r = ''__gt__''" | "r = ''__ge__''"
  using assms unfolding compare_ops_set by blast

lemma distinct_conversions_of: "distinct (map fst (conversions_of r))"
proof (cases "r \<in> set compare_ops")
  case True
  then show ?thesis by (rule compare_ops_cases) (simp_all add: conversions_of_simps)
next
  case False
  then show ?thesis by (simp add: conversions_of_other)
qed

lemma map_of_conversions_outside:
  assumes "n \<notin> set compare_ops"
  shows "map_of (conversions_of r) n = None"
proof (cases "r \<in> set compare_ops")
  case True
  then show ?thesis
    by (rule compare_ops_cases) (use assms in \<open>simp_all add: conversions_of_simps compare_ops_set\<close>)
next
  case False
  then show ?thesis by (simp add: conversions_of_other)
qed

lemma map_of_conversions_root: "map_of (conversions_of r) r = None"
proof (cases "r \<in> set compare_ops")
  case True
  then show ?thesis by (rule compare_ops_cases) (simp_all add: conversions_of_simps)
next
  case False
  then show ?thesis by (simp add: conversions_of_other)
qed

lemma getattr_derive_ordering:
  "getattr (derive_ordering cls) n =
     (if \<exists>op \<in> set compare_ops. is_concrete cls op then
        (case map_of (conversions_of (ordering_root cls)) n of
           Some f \<Rightarrow> if n \<notin> concrete_ops cls then Some f else getattr cls n
         | None \<Rightarrow> getattr cls n)
      else getattr cls n)"
  unfolding derive_ordering_def Let_def
  by (simp only: getattr_fold_setattr[OF distinct_conversions_of] if_distrib[of "\<lambda>c. getattr c n"])

lemma eq_ne_not_compare_ops:
  "''__eq__'' \<notin> set compare_ops" "''__ne__'' \<notin> set compare_ops"
  by (simp_all add: compare_ops_def)

lemma stage_ordering_unchanged:
  assumes g: "\<And>n. getattr cls2 n =
       (if n = ''__ne__'' \<and> \<not> is_concrete cls ''__ne__'' then Some Ne_from_eq
        else if n = ''__eq__'' \<and> \<not> is_concrete cls ''__eq__'' then Some Eq_from_ne
        else getattr cls n)"
  shows "op \<in> set compare_ops \<Longrightarrow> is_concrete cls2 op = is_concrete cls op"
    and "concrete_ops cls2 = concrete_ops cls"
    and "ordering_root cls2 = ordering_root cls"
proof -
  show c: "is_concrete cls2 op = is_concrete cls op" if "op \<in> set compare_ops" for op
  proof -
    from that eq_ne_not_compare_ops have "op \<noteq> ''__ne__''" "op \<noteq> ''__eq__''" by blast+
    then have "getattr cls2 op = getattr cls op" by (simp add: g)
    then show ?thesis by (simp add: is_concrete_def)
  qed
  show s: "concrete_ops cls2 = concrete_ops cls"
    using c by (auto simp: concrete_ops_iff)
  show "ordering_root cls2 = ordering_root cls"
    by (simp add: ordering_root_def s)
qed

lemma init_subclass_getattr:
  assumes "init_subclass cls = Inr cls'"
  shows "getattr cls' n =
     (if n = ''__ne__'' \<and> \<not> is_concrete cls ''__ne__'' then Some Ne_from_eq
      else if n = ''__eq__'' \<and> \<not> is_concrete cls ''__eq__'' then Some Eq_from_ne
      else if n \<in> set compare_ops \<and> \<not> is_concrete cls n
              \<and> (\<exists>op \<in> set compare_ops. is_concrete cls op)
           then map_of (conversions_of (ordering_root cls)) n
      else getattr cls n)"
proof -
  define cls1 where
    "cls1 = (if \<not> is_concrete cls ''__ne__'' then setattr cls ''__ne__'' Ne_from_eq else cls)"
  define cls2 where
    "cls2 = (if \<not> is_concrete cls ''__eq__'' then setattr cls1 ''__eq__'' Eq_from_ne else cls1)"
  from assms have ok: "is_concrete cls ''__eq__'' \<or> is_concrete cls ''__ne__''"
    and res: "cls' = update_abstractmethods (derive_ordering cls2)"
    by (auto simp: init_subclass_def Let_def cls1_def cls2_def split: if_splits)
  have g: "getattr cls2 n =
       (if n = ''__ne__'' \<and> \<not> is_concrete cls ''__ne__'' then Some Ne_from_eq
        else if n = ''__eq__'' \<and> \<not> is_concrete cls ''__eq__'' then Some Eq_from_ne
        else getattr cls n)" for n
    using ok by (auto simp: cls1_def cls2_def getattr_setattr)
  note u = stage_ordering_unchanged[of cls2 cls, OF g]
  have ex: "(\<exists>op \<in> set compare_ops. is_concrete cls2 op) = (\<exists>op \<in> set compare_ops. is_concrete cls op)"
    using u(1) by blast
  show ?thesis
  proof (cases "n \<in> set compare_ops")
    case False
    then have "map_of (conversions_of r :: (string \<times> 'a func) list) n = None" for r
      by (rule map_of_conversions_outside)
    then have "getattr cls' n = getattr cls2 n"
      by (simp add: res getattr_derive_ordering)
    then show ?thesis
      using False by (simp add: g)
  next
    case True
    with eq_ne_not_compare_ops have ne: "n \<noteq> ''__ne__''" "n \<noteq> ''__eq__''" by blast+
    show ?thesis
    proof (cases "\<exists>op \<in> set compare_ops. is_concrete cls op")
      case False
      then show ?thesis
        using ne by (simp add: res getattr_derive_ordering ex g)
    next
      case nonempty: True
      have root_in: "ordering_root cls \<in> concrete_ops cls"
        unfolding ordering_root_def
        using nonempty by (intro Max_in finite_concrete_ops) (auto simp: concrete_ops_iff)
      show ?thesis
      proof (cases "is_concrete cls n")
        case True
        then have "n \<in> concrete_ops cls" using \<open>n \<in> set compare_ops\<close> by (simp add: concrete_ops_iff)
        then show ?thesis
          using ne True nonempty
          by (simp add: res getattr_derive_ordering ex u g split: option.splits)
      next
        case False
        then have nin: "n \<notin> concrete_ops cls" by (simp add: concrete_ops_iff)
        from root_in have rc: "ordering_root cls \<in> set compare_ops" by (simp add: concrete_ops_iff)
        from nin root_in have "n \<noteq> ordering_root cls" by blast
        have "map_of (conversions_of (ordering_root cls) :: (string \<times> 'a func) list) n \<noteq> None"
          using rc \<open>n \<in> set compare_ops\<close> \<open>n \<noteq> ordering_root cls\<close>
          by (elim compare_ops_cases) (simp_all add: conversions_of_simps)
        then show ?thesis
          using ne False nonempty nin \<open>n \<in> set compare_ops\<close>
          by (auto simp add: res getattr_derive_ordering ex u g split: option.splits)
      qed
    qed
  qed
qed

section \<open>The synthesized functions against the closed forms\<close>

lemma synthesized_getattr:
  assumes "r \<in> set compare_ops" "op \<in> set compare_ops" "op \<noteq> r"
  shows "map_of (conversions_of r :: (string \<times> 'a func) list) op \<noteq> None"
  using assms by (elim compare_ops_cases) (simp_all add: conversions_of_simps)

lemma synthesized_not_implemented:
  assumes "r \<in> set compare_ops" "op \<in> set compare_ops" "op \<noteq> r"
    and f: "map_of (conversions_of r) op = Some f"
    and root: "method r = Inr NotImplemented"
  shows "apply_func f a b method cmp = Inr NotImplemented"
  using assms(1,2,3) f root
  by (elim compare_ops_cases)
     (auto simp: conversions_of_simps apply_func_def
        gt_from_lt_def le_from_lt_def ge_from_lt_def ge_from_le_def lt_from_le_def gt_from_le_def
        lt_from_gt_def ge_from_gt_def le_from_gt_def le_from_ge_def gt_from_ge_def lt_from_ge_def)

lemma synthesized_closed_form:
  assumes "r \<in> set compare_ops" "op \<in> set compare_ops" "op \<noteq> r"
    and f: "map_of (conversions_of r) op = Some f"
    and root: "method r = Inr v" and v: "v \<noteq> NotImplemented"
  shows "map_of (closed_form v (cmp Py_EQ) (cmp Py_NE)) (r, op)
           = Some (apply_func f a b method cmp)"
  using assms(1,2,3) f root v
  by (elim compare_ops_cases)
     (auto simp: conversions_of_simps apply_func_def closed_form_def
        gt_from_lt_def le_from_lt_def ge_from_lt_def ge_from_le_def lt_from_le_def gt_from_le_def
        lt_from_gt_def ge_from_gt_def le_from_gt_def le_from_ge_def gt_from_ge_def lt_from_ge_def)

text \<open>On booleans the entries of the table are the specification's formulas.\<close>

lemma closed_form_bool:
  "closed_form (PBool t) (Inr (PBool e)) (Inr (PBool n)) =
     [((''__lt__'', ''__le__''), Inr (PBool (t \<or> e))),
      ((''__lt__'', ''__gt__''), Inr (PBool (\<not> t \<and> n))),
      ((''__lt__'', ''__ge__''), Inr (PBool (\<not> t))),
      ((''__le__'', ''__lt__''), Inr (PBool (t \<and> n))),
      ((''__le__'', ''__gt__''), Inr (PBool (\<not> t))),
      ((''__le__'', ''__ge__''), Inr (PBool (\<not> t \<or> e))),
      ((''__gt__'', ''__lt__''), Inr (PBool (\<not> t \<and> n))),
      ((''__gt__'', ''__le__''), Inr (PBool (\<not> t))),
      ((''__gt__'', ''__ge__''), Inr (PBool (t \<or> e))),
      ((''__ge__'', ''__lt__''), Inr (PBool (\<not> t))),
      ((''__ge__'', ''__le__''), Inr (PBool (\<not> t \<or> e))),
      ((''__ge__'', ''__gt__''), Inr (PBool (t \<and> n)))]"
  by (simp add: closed_form_def py_or_def py_and_def py_not_def)

lemma registered_root:
  assumes reg: "init_subclass cls = Inr cls'"
    and nonempty: "\<exists>op \<in> set compare_ops. is_concrete cls op"
  shows "ordering_root cls \<in> set compare_ops"
    and "is_concrete cls (ordering_root cls)"
    and "getattr cls' (ordering_root cls) = getattr cls (ordering_root cls)"
proof -
  have "ordering_root cls \<in> concrete_ops cls"
    unfolding ordering_root_def
    using nonempty by (intro Max_in finite_concrete_ops) (auto simp: concrete_ops_iff)
  then show r: "ordering_root cls \<in> set compare_ops" and c: "is_concrete cls (ordering_root cls)"
    by (simp_all add: concrete_ops_iff)
  from r eq_ne_not_compare_ops
  have "ordering_root cls \<noteq> ''__ne__''" "ordering_root cls \<noteq> ''__eq__''" by auto
  then show "getattr cls' (ordering_root cls) = getattr cls (ordering_root cls)"
    using c by (simp add: init_subclass_getattr[OF reg])
qed

lemma registered_derived:
  assumes reg: "init_subclass cls = Inr cls'"
    and nonempty: "\<exists>op \<in> set compare_ops. is_concrete cls op"
    and op: "op \<in> set compare_ops" "\<not> is_concrete cls op"
  shows "op \<noteq> ordering_root cls"
    and "getattr cls' op = map_of (conversions_of (ordering_root cls)) op"
    and "\<exists>f. getattr cls' op = Some f \<and> map_of (conversions_of (ordering_root cls)) op = Some f"
proof -
  show ne: "op \<noteq> ordering_root cls"
    using registered_root(2)[OF reg nonempty] op(2) by blast
  from op(1) eq_ne_not_compare_ops have "op \<noteq> ''__ne__''" "op \<noteq> ''__eq__''" by blast+
  then show g: "getattr cls' op = map_of (conversions_of (ordering_root cls)) op"
    using op nonempty by (simp add: init_subclass_getattr[OF reg])
  from synthesized_getattr[OF registered_root(1)[OF reg nonempty] op(1) ne, where 'a='a] g
  show "\<exists>f. getattr cls' op = Some f \<and> map_of (conversions_of (ordering_root cls)) op = Some f"
    by auto
qed

text \<open>
  The function installed for a relation the class does not supply computes the entry of the
  table at the root's value and at the outcomes of the expressions \<open>a == b\<close> and
  \<open>a != b\<close> on the registered class; an outcome may be an exception.
\<close>

lemma registered_closed_form:
  assumes "init_subclass cls = Inr cls'"
    and "\<exists>op \<in> set compare_ops. is_concrete cls op"
    and "op \<in> set compare_ops" and "\<not> is_concrete cls op"
    and "call d cls' (ordering_root cls) a b = Inr (PBool t)"
  shows "map_of (closed_form (PBool t) (richcompare d cls' Py_EQ a b) (richcompare d cls' Py_NE a b))
           (ordering_root cls, op)
         = Some (call (Suc d) cls' op a b)"
proof -
  from registered_derived(3)[OF assms(1-4)] obtain f where
    f: "getattr cls' op = Some f" "map_of (conversions_of (ordering_root cls)) op = Some f"
    by blast
  have "map_of (closed_form (PBool t) (richcompare d cls' Py_EQ a b) (richcompare d cls' Py_NE a b))
           (ordering_root cls, op)
         = Some (apply_func f a b (\<lambda>n. call d cls' n a b) (\<lambda>op. richcompare d cls' op a b))"
    by (rule synthesized_closed_form[OF registered_root(1)[OF assms(1,2)] assms(3)
          registered_derived(1)[OF assms(1-4)] f(2)])
       (simp_all add: assms(5))
  then show ?thesis by (simp add: f(1))
qed

section \<open>The abstract methods of a class, and the classes of the example\<close>

lemma mem_abstractmethods_update:
  "n \<in> abstractmethods (update_abstractmethods cls) \<longleftrightarrow>
     (case base cls of
        None \<Rightarrow> False
      | Some scls \<Rightarrow> n \<in> abstractmethods scls \<and> isabstractmethod (getattr cls n))
     \<or> isabstractmethod (map_of (dict cls) n)"
proof -
  have "n \<in> fst ` set (dict cls)" if "isabstractmethod (map_of (dict cls) n)"
  proof (cases "map_of (dict cls) n")
    case None
    with that show ?thesis by simp
  next
    case (Some f)
    then have "(n, f) \<in> set (dict cls)" by (rule map_of_SomeD)
    then show ?thesis by (rule rev_image_eqI) simp
  qed
  then show ?thesis
    unfolding update_abstractmethods_def
    by (cases "base cls") auto
qed

lemma isabstractmethod_iff: "isabstractmethod x \<longleftrightarrow> x = Some Abstractmethod"
  by (cases x rule: isabstractmethod.cases) simp_all

lemma getattr_own: "map_of (dict cls) n = Some f \<Longrightarrow> getattr cls n = Some f"
  by (cases cls) simp

lemma abstractmethods_update_abstract:
  assumes "n \<in> abstractmethods (update_abstractmethods cls)"
  shows "isabstractmethod (getattr cls n)"
proof -
  from assms consider
      (inherited) scls where "base cls = Some scls" "isabstractmethod (getattr cls n)"
    | (own) "isabstractmethod (map_of (dict cls) n)"
    unfolding mem_abstractmethods_update by (cases "base cls") auto
  then show ?thesis
  proof cases
    case inherited
    then show ?thesis by simp
  next
    case own
    then have "map_of (dict cls) n = Some Abstractmethod" by (simp add: isabstractmethod_iff)
    then have "getattr cls n = Some Abstractmethod" by (rule getattr_own)
    then show ?thesis by simp
  qed
qed

lemma update_abstractmethods_eqI:
  assumes d: "dict cls = d" and b: "base cls = Some b"
    and s: "\<And>n. n \<in> s \<longleftrightarrow> (n \<in> abstractmethods b \<and> isabstractmethod (getattr cls n))
                           \<or> isabstractmethod (map_of d n)"
  shows "update_abstractmethods cls = Class d (Some b) s"
proof -
  have "n \<in> abstractmethods (update_abstractmethods cls) \<longleftrightarrow> n \<in> s" for n
    unfolding mem_abstractmethods_update s by (simp add: d b)
  then have "abstractmethods (update_abstractmethods cls) = s"
    by (rule set_eqI)
  moreover have "dict (update_abstractmethods cls) = d" "base (update_abstractmethods cls) = Some b"
    by (simp_all add: update_abstractmethods_def d b)
  ultimately show ?thesis
    by (cases "update_abstractmethods cls") simp
qed

lemma is_concrete_Person0:
  "is_concrete (Class [(''__eq__'', Def Person_eq)] (Some Sortable) {}) ''__eq__''"
  "\<not> is_concrete (Class [(''__eq__'', Def Person_eq)] (Some Sortable) {}) ''__ne__''"
  "\<not> is_concrete (Class [(''__eq__'', Def Person_eq)] (Some Sortable) {}) ''__lt__''"
  "\<not> is_concrete (Class [(''__eq__'', Def Person_eq)] (Some Sortable) {}) ''__le__''"
  "\<not> is_concrete (Class [(''__eq__'', Def Person_eq)] (Some Sortable) {}) ''__gt__''"
  "\<not> is_concrete (Class [(''__eq__'', Def Person_eq)] (Some Sortable) {}) ''__ge__''"
  by (simp_all add: is_concrete_def Sortable_def)

lemma Person_statement:
  "class_statement [(''__eq__'', Def Person_eq)] Sortable = Inr Person"
proof -
  let ?c1 = "Class [(''__eq__'', Def Person_eq), (''__ne__'', Ne_from_eq)] (Some Sortable) {}
               :: student pyclass"
  have d: "derive_ordering ?c1 = ?c1"
    by (simp add: derive_ordering_def compare_ops_def is_concrete_def Sortable_def)
  have u: "update_abstractmethods ?c1 = Person"
    unfolding Person_def
    by (rule update_abstractmethods_eqI) (simp_all add: Sortable_def)
  show ?thesis
    by (simp add: class_statement_def init_subclass_def is_concrete_Person0 d u)
qed

lemma is_concrete_Student0:
  "is_concrete (Class [(''__le__'', Def Student_le)] (Some Person) {}) ''__eq__''"
  "is_concrete (Class [(''__le__'', Def Student_le)] (Some Person) {}) ''__ne__''"
  "\<not> is_concrete (Class [(''__le__'', Def Student_le)] (Some Person) {}) ''__lt__''"
  "is_concrete (Class [(''__le__'', Def Student_le)] (Some Person) {}) ''__le__''"
  "\<not> is_concrete (Class [(''__le__'', Def Student_le)] (Some Person) {}) ''__gt__''"
  "\<not> is_concrete (Class [(''__le__'', Def Student_le)] (Some Person) {}) ''__ge__''"
  by (simp_all add: is_concrete_def Person_def Sortable_def)

lemma ordering_root_Student0:
  "ordering_root (Class [(''__le__'', Def Student_le)] (Some Person) {}) = ''__le__''"
proof -
  have "\<exists>op \<in> set compare_ops. is_concrete (Class [(''__le__'', Def Student_le)] (Some Person) {}) op"
    using is_concrete_Student0(4) by (auto simp: compare_ops_def)
  then show ?thesis
    by (simp add: ordering_root_eq is_concrete_Student0)
qed

lemma Student_statement:
  "class_statement [(''__le__'', Def Student_le)] Person = Inr Student"
proof -
  let ?c = "Class [(''__le__'', Def Student_le)] (Some Person) {} :: student pyclass"
  let ?c3 = "Class [(''__le__'', Def Student_le), (''__lt__'', Lt_from_le),
                    (''__gt__'', Gt_from_le), (''__ge__'', Ge_from_le)] (Some Person) {}
               :: student pyclass"
  have ex: "\<exists>op \<in> set compare_ops. is_concrete ?c op"
    using is_concrete_Student0(4) by (auto simp: compare_ops_def)
  have d: "derive_ordering ?c = ?c3"
    using ex
    by (simp add: derive_ordering_def ordering_root_Student0 conversions_of_simps
          concrete_ops_iff is_concrete_Student0)
  have u: "update_abstractmethods ?c3 = Student"
    unfolding Student_def
    by (rule update_abstractmethods_eqI) (simp_all add: Person_def Sortable_def)
  show ?thesis
    by (simp add: class_statement_def init_subclass_def is_concrete_Student0 d u)
qed

lemma getattr_Student:
  "getattr Student ''__eq__'' = Some (Def Person_eq)"
  "getattr Student ''__ne__'' = Some Ne_from_eq"
  "getattr Student ''__le__'' = Some (Def Student_le)"
  "getattr Student ''__gt__'' = Some Gt_from_le"
  by (simp_all add: Student_def Person_def)


lemma Student_registered:
  "init_subclass (Class [(''__le__'', Def Student_le)] (Some Person) {}) = Inr Student"
  using Student_statement by (simp add: class_statement_def)

lemma compare_ops_mem:
  "''__lt__'' \<in> set compare_ops" "''__le__'' \<in> set compare_ops"
  "''__gt__'' \<in> set compare_ops" "''__ge__'' \<in> set compare_ops"
  by (simp_all add: compare_ops_def)

lemma call_ne_from_eq:
  "getattr cls ''__ne__'' = Some Ne_from_eq \<Longrightarrow> call d cls ''__ne__'' a b = Inl RecursionError"
  by (induction d) (simp_all add: apply_func_def ne_from_eq_def)

lemma call_eq_from_ne:
  "getattr cls ''__eq__'' = Some Eq_from_ne \<Longrightarrow> call d cls ''__eq__'' a b = Inl RecursionError"
  by (induction d) (simp_all add: apply_func_def eq_from_ne_def)

lemma Person_registered:
  "init_subclass (Class [(''__eq__'', Def Person_eq)] (Some Sortable) {}) = Inr Person"
  using Person_statement by (simp add: class_statement_def)

lemma conversions_not_abstract:
  assumes "map_of (conversions_of r) op = Some f"
  shows "\<not> isabstractmethod (Some f)"
proof (cases "r \<in> set compare_ops")
  case True
  then show ?thesis
    by (rule compare_ops_cases)
       (use assms in \<open>auto simp: conversions_of_simps split: if_splits\<close>)
next
  case False
  with assms show ?thesis by (simp add: conversions_of_other)
qed

lemma registered_is_update:
  assumes "init_subclass cls = Inr cls'"
  obtains X where "cls' = update_abstractmethods X" "base X = base cls"
proof -
  have b: "base (setattr c n f) = base c" for c :: "'a pyclass" and n f
    by (cases c) simp
  have f: "base (fold (\<lambda>(opname, opfunc) c.
                   if opname \<notin> C then setattr c opname opfunc else c) items c) = base c"
    for C items and c :: "'a pyclass"
    by (induction items arbitrary: c) (auto simp: b)
  have d: "base (derive_ordering c) = base c" for c :: "'a pyclass"
    by (simp add: derive_ordering_def Let_def f)
  from assms show thesis
    by (intro that[of "derive_ordering
           (if \<not> is_concrete cls ''__eq__''
            then setattr (if \<not> is_concrete cls ''__ne__''
                          then setattr cls ''__ne__'' Ne_from_eq else cls) ''__eq__'' Eq_from_ne
            else (if \<not> is_concrete cls ''__ne__''
                  then setattr cls ''__ne__'' Ne_from_eq else cls))"])
       (auto simp: init_subclass_def Let_def d b split: if_splits)
qed

lemma registered_abstract:
  assumes "init_subclass cls = Inr cls'" and "n \<in> abstractmethods cls'"
  shows "isabstractmethod (getattr cls' n)"
proof -
  from assms(1) obtain X where X: "cls' = update_abstractmethods X"
    by (rule registered_is_update)
  from assms(2) have "isabstractmethod (getattr X n)"
    unfolding X by (rule abstractmethods_update_abstract)
  then show ?thesis by (simp add: X)
qed

lemma registered_equality_concrete:
  assumes "init_subclass cls = Inr cls'"
  shows "is_concrete cls' ''__eq__''" "is_concrete cls' ''__ne__''"
proof -
  from assms have ok: "is_concrete cls ''__eq__'' \<or> is_concrete cls ''__ne__''"
    by (auto simp: init_subclass_def Let_def split: if_splits)
  have e: "getattr cls' ''__eq__'' =
             (if \<not> is_concrete cls ''__eq__'' then Some Eq_from_ne else getattr cls ''__eq__'')"
    using init_subclass_getattr[OF assms, of "''__eq__''"] eq_ne_not_compare_ops by simp
  have n: "getattr cls' ''__ne__'' =
             (if \<not> is_concrete cls ''__ne__'' then Some Ne_from_eq else getattr cls ''__ne__'')"
    using init_subclass_getattr[OF assms, of "''__ne__''"] eq_ne_not_compare_ops by simp
  show "is_concrete cls' ''__eq__''"
    using e by (cases "is_concrete cls ''__eq__''") (simp_all add: is_concrete_def)
  show "is_concrete cls' ''__ne__''"
    using n by (cases "is_concrete cls ''__ne__''") (simp_all add: is_concrete_def)
qed

lemma registered_ordering_concrete:
  assumes reg: "init_subclass cls = Inr cls'"
    and nonempty: "\<exists>op \<in> set compare_ops. is_concrete cls op"
    and op: "op \<in> set compare_ops"
  shows "is_concrete cls' op"
proof (cases "is_concrete cls op")
  case True
  from op eq_ne_not_compare_ops have "op \<noteq> ''__ne__''" "op \<noteq> ''__eq__''" by auto
  with True have "getattr cls' op = getattr cls op"
    by (simp add: init_subclass_getattr[OF reg])
  with True show ?thesis by (simp add: is_concrete_def)
next
  case False
  from registered_derived(3)[OF reg nonempty op False] obtain f where
    f: "getattr cls' op = Some f" "map_of (conversions_of (ordering_root cls)) op = Some f"
    by blast
  from conversions_not_abstract[OF f(2)] f(1) show ?thesis
    by (simp add: is_concrete_def)
qed

lemma registered_abstract_origin:
  assumes reg: "init_subclass cls = Inr cls'"
    and a: "isabstractmethod (getattr cls' n)"
  shows "isabstractmethod (getattr cls n)"
proof -
  have "is_concrete cls' n \<Longrightarrow> False"
    using a by (auto simp: is_concrete_def split: option.splits)
  then have nc: "\<not> is_concrete cls' n" by blast
  with registered_equality_concrete[OF reg] have ne: "n \<noteq> ''__eq__''" "n \<noteq> ''__ne__''" by auto
  show ?thesis
  proof (cases "n \<in> set compare_ops \<and> (\<exists>op \<in> set compare_ops. is_concrete cls op)")
    case True
    with registered_ordering_concrete[OF reg] nc show ?thesis by blast
  next
    case False
    with ne have "getattr cls' n = getattr cls n"
      by (auto simp add: init_subclass_getattr[OF reg])
    with a show ?thesis by simp
  qed
qed

lemma relation_names_set:
  "set relation_names = insert ''__eq__'' (insert ''__ne__'' (set compare_ops))"
  by (simp add: relation_names_def compare_ops_def)

lemma Student0_only_relations_abstract:
  "isabstractmethod (getattr (Class [(''__le__'', Def Student_le)] (Some Person) {}) n)
     \<Longrightarrow> n \<in> set relation_names"
  by (simp add: Person_def Sortable_def relation_names_def split: if_splits)

lemma fold_setattr_id:
  "fst ` set items \<subseteq> C \<Longrightarrow>
   fold (\<lambda>(opname, opfunc) c. if opname \<notin> C then setattr c opname opfunc else c) items cls = cls"
  by (induction items arbitrary: cls) auto

lemma conversions_keys: "fst ` set (conversions_of r) \<subseteq> set compare_ops"
proof (cases "r \<in> set compare_ops")
  case True
  then show ?thesis
    by (rule compare_ops_cases) (simp_all add: conversions_of_simps compare_ops_def)
next
  case False
  then show ?thesis by (simp add: conversions_of_other)
qed

lemma update_abstractmethods_idem:
  "update_abstractmethods (update_abstractmethods cls) = update_abstractmethods cls"
proof -
  have d: "dict (update_abstractmethods c) = dict c"
    and b: "base (update_abstractmethods c) = base c" for c :: "'a pyclass"
    by (simp_all add: update_abstractmethods_def)
  have "n \<in> abstractmethods (update_abstractmethods (update_abstractmethods cls))
          \<longleftrightarrow> n \<in> abstractmethods (update_abstractmethods cls)" for n
    by (simp add: mem_abstractmethods_update d b cong: option.case_cong)
  then have "abstractmethods (update_abstractmethods (update_abstractmethods cls))
          = abstractmethods (update_abstractmethods cls)"
    by (rule set_eqI)
  then show ?thesis
    by (intro pyclass.expand) (simp add: d b)
qed

lemma registered_ordering_iff:
  assumes reg: "init_subclass cls = Inr cls'" and op: "op \<in> set compare_ops"
  shows "is_concrete cls' op \<longleftrightarrow> (\<exists>op \<in> set compare_ops. is_concrete cls op)"
proof (cases "\<exists>op \<in> set compare_ops. is_concrete cls op")
  case True
  with registered_ordering_concrete[OF reg True op] show ?thesis by simp
next
  case False
  from op eq_ne_not_compare_ops have "op \<noteq> ''__ne__''" "op \<noteq> ''__eq__''" by auto
  with False have "getattr cls' op = getattr cls op"
    by (simp add: init_subclass_getattr[OF reg])
  then have "is_concrete cls' op = is_concrete cls op" by (simp add: is_concrete_def)
  with False op show ?thesis by blast
qed

lemma derive_ordering_registered:
  assumes reg: "init_subclass cls = Inr cls'"
  shows "derive_ordering cls' = cls'"
proof (cases "\<exists>op \<in> set compare_ops. is_concrete cls' op")
  case False
  then show ?thesis by (simp add: derive_ordering_def)
next
  case True
  then have "\<exists>op \<in> set compare_ops. is_concrete cls op"
    using registered_ordering_iff[OF reg] by blast
  then have sub: "set compare_ops \<subseteq> concrete_ops cls'"
    using registered_ordering_iff[OF reg] by (auto simp: concrete_ops_iff)
  show ?thesis
    by (simp add: derive_ordering_def Let_def
          fold_setattr_id[OF order_trans[OF conversions_keys sub]])
qed

lemma registration_getattr_concrete:
  assumes "init_subclass cls = Inr cls'" and "is_concrete cls n"
  shows "getattr cls' n = getattr cls n"
  using assms(2) by (auto simp add: init_subclass_getattr[OF assms(1)])

section \<open>The claims\<close>

text \<open>
  C1. The claim is that the synthesized \<open>__ne__\<close> returns the negation of \<open>__eq__\<close>, and
  the synthesized \<open>__eq__\<close> the negation of \<open>__ne__\<close>. The code does not do that:
  \<open>_ne__from_eq\<close> calls \<open>self.__ne__\<close>, which is itself, and \<open>_eq__from_ne\<close> calls
  \<open>self.__eq__\<close>. After registration of a class that leaves \<open>__ne__\<close> (or \<open>__eq__\<close>) to
  the engine, calling it, or evaluating \<open>a != b\<close> (or \<open>a == b\<close>), ends in \<open>RecursionError\<close>
  at every stack depth and for every pair.
\<close>

theorem synthesized_equality_recursion:
  assumes "init_subclass cls = Inr cls'"
  shows "(\<not> is_concrete cls ''__ne__'' \<longrightarrow>
            call d cls' ''__ne__'' a b = Inl RecursionError
            \<and> richcompare d cls' Py_NE a b = Inl RecursionError)
       \<and> (\<not> is_concrete cls ''__eq__'' \<longrightarrow>
            call d cls' ''__eq__'' a b = Inl RecursionError
            \<and> richcompare d cls' Py_EQ a b = Inl RecursionError)"
proof (intro conjI impI)
  assume "\<not> is_concrete cls ''__ne__''"
  then have g: "getattr cls' ''__ne__'' = Some Ne_from_eq"
    by (simp add: init_subclass_getattr[OF assms])
  then show c: "call d cls' ''__ne__'' a b = Inl RecursionError"
    by (rule call_ne_from_eq)
  show "richcompare d cls' Py_NE a b = Inl RecursionError"
    by (simp add: g c)
next
  assume "\<not> is_concrete cls ''__eq__''"
  then have g: "getattr cls' ''__eq__'' = Some Eq_from_ne"
    by (simp add: init_subclass_getattr[OF assms])
  then show c: "call d cls' ''__eq__'' a b = Inl RecursionError"
    by (rule call_eq_from_ne)
  show "richcompare d cls' Py_EQ a b = Inl RecursionError"
    by (simp add: g c)
qed

theorem synthesized_equality_recursion_witness:
  "init_subclass (Class [(''__eq__'', Def Person_eq)] (Some Sortable) {}) = Inr Person
   \<and> \<not> is_concrete (Class [(''__eq__'', Def Person_eq)] (Some Sortable) {}) ''__ne__''
   \<and> call 1000 Person ''__ne__''
        \<lparr>ident = 1, name = ''A'', average = 90\<rparr> \<lparr>ident = 2, name = ''B'', average = 70\<rparr>
       = Inl RecursionError
   \<and> richcompare 1000 Person Py_NE
        \<lparr>ident = 1, name = ''A'', average = 90\<rparr> \<lparr>ident = 2, name = ''B'', average = 70\<rparr>
       = Inl RecursionError"
  using synthesized_equality_recursion[OF Person_registered, of 1000
          "\<lparr>ident = 1, name = ''A'', average = 90\<rparr>" "\<lparr>ident = 2, name = ''B'', average = 70\<rparr>"]
        Person_registered is_concrete_Person0(2)
  by blast

text \<open>
  C2. When the class supplies at least one ordering relation, the root the hook chooses
  (the maximum of the concrete names as Python strings) is the member of the concrete set
  that comes first in the precedence \<open>LT > LE > GT > GE\<close>, and every ordering relation the
  class does not supply is taken from the conversions of that root. The witness is a class
  with \<open>__lt__\<close> and \<open>__ge__\<close> only: its \<open>__le__\<close> and \<open>__gt__\<close> are the ones derived
  from \<open>__lt__\<close>.
\<close>

theorem root_precedence:
  assumes "init_subclass cls = Inr cls'"
    and "\<exists>op \<in> set compare_ops. is_concrete cls op"
  shows "highest_precedence (concrete_ops cls) = Some (ordering_root cls)
       \<and> (\<forall>op \<in> set compare_ops. \<not> is_concrete cls op \<longrightarrow>
             getattr cls' op = map_of (conversions_of (ordering_root cls)) op)"
proof -
  have "highest_precedence (concrete_ops cls) = Some (ordering_root cls)"
    using assms(2)
    unfolding highest_precedence_def precedence_def ordering_root_eq[OF assms(2)] compare_ops_set
    by (auto simp: concrete_ops_iff compare_ops_mem)
  moreover have "getattr cls' op = map_of (conversions_of (ordering_root cls)) op"
    if "op \<in> set compare_ops" "\<not> is_concrete cls op" for op
    using registered_derived(2)[OF assms that] .
  ultimately show ?thesis by blast
qed

theorem root_precedence_witness:
  "init_subclass
     (Class [(''__eq__'', Def Person_eq),
             (''__ne__'', Def (\<lambda>self other. PBool (name self \<noteq> name other))),
             (''__lt__'', Def (\<lambda>self other. PBool (average self < average other))),
             (''__ge__'', Def (\<lambda>self other. PBool True))] (Some Sortable) {})
    = Inr (update_abstractmethods (derive_ordering
       (Class [(''__eq__'', Def Person_eq),
             (''__ne__'', Def (\<lambda>self other. PBool (name self \<noteq> name other))),
             (''__lt__'', Def (\<lambda>self other. PBool (average self < average other))),
             (''__ge__'', Def (\<lambda>self other. PBool True))] (Some Sortable) {})))
   \<and> highest_precedence (concrete_ops
       (Class [(''__eq__'', Def Person_eq),
             (''__ne__'', Def (\<lambda>self other. PBool (name self \<noteq> name other))),
             (''__lt__'', Def (\<lambda>self other. PBool (average self < average other))),
             (''__ge__'', Def (\<lambda>self other. PBool True))] (Some Sortable) {})) = Some ''__lt__''
   \<and> getattr (update_abstractmethods (derive_ordering
       (Class [(''__eq__'', Def Person_eq),
             (''__ne__'', Def (\<lambda>self other. PBool (name self \<noteq> name other))),
             (''__lt__'', Def (\<lambda>self other. PBool (average self < average other))),
             (''__ge__'', Def (\<lambda>self other. PBool True))] (Some Sortable) {}))) ''__le__''
       = Some Le_from_lt
   \<and> getattr (update_abstractmethods (derive_ordering
       (Class [(''__eq__'', Def Person_eq),
             (''__ne__'', Def (\<lambda>self other. PBool (name self \<noteq> name other))),
             (''__lt__'', Def (\<lambda>self other. PBool (average self < average other))),
             (''__ge__'', Def (\<lambda>self other. PBool True))] (Some Sortable) {}))) ''__gt__''
       = Some Gt_from_lt"
proof -
  let ?c = "Class [(''__eq__'', Def Person_eq),
             (''__ne__'', Def (\<lambda>self other. PBool (name self \<noteq> name other))),
             (''__lt__'', Def (\<lambda>self other. PBool (average self < average other))),
             (''__ge__'', Def (\<lambda>self other. PBool True))] (Some Sortable) {} :: student pyclass"
  define c' where "c' = update_abstractmethods (derive_ordering ?c)"
  have con: "is_concrete ?c ''__eq__''" "is_concrete ?c ''__ne__''" "is_concrete ?c ''__lt__''"
    "\<not> is_concrete ?c ''__le__''" "\<not> is_concrete ?c ''__gt__''" "is_concrete ?c ''__ge__''"
    by (simp_all add: is_concrete_def Sortable_def)
  have reg: "init_subclass ?c = Inr c'"
    by (simp add: init_subclass_def con c'_def)
  have ex: "\<exists>op \<in> set compare_ops. is_concrete ?c op"
    using con(3) compare_ops_mem(1) by blast
  have r: "ordering_root ?c = ''__lt__''"
    using ex by (simp add: ordering_root_eq con)
  from root_precedence[OF reg ex]
  have hp: "highest_precedence (concrete_ops ?c) = Some (ordering_root ?c)"
    and d: "\<forall>op \<in> set compare_ops. \<not> is_concrete ?c op \<longrightarrow>
             getattr c' op = map_of (conversions_of (ordering_root ?c)) op"
    by blast+
  from d con(4) compare_ops_mem(2) have "getattr c' ''__le__'' = Some Le_from_lt"
    by (simp add: r conversions_of_simps)
  moreover from d con(5) compare_ops_mem(3) have "getattr c' ''__gt__'' = Some Gt_from_lt"
    by (simp add: r conversions_of_simps)
  ultimately show ?thesis
    using reg hp unfolding r c'_def by blast
qed

text \<open>
  C3. The claim is that every synthesized ordering relation has the value of the closed form
  of its root on every pair where the root returns \<open>True\<close> or \<open>False\<close>. The code does not
  deliver that where the closed form consults \<open>EQ\<close> or \<open>NE\<close> and the class left that
  relation to the engine: \<open>__lt__from_le\<close> evaluates \<open>self != other\<close>, which reaches
  \<open>_ne__from_eq\<close> and never returns. On \<open>Student\<close> of the example, whose root is
  \<open>__le__\<close>, \<open>Student('B',70) <= Student('A',90)\<close> is true and \<open>__eq__\<close> is false on the
  pair, so the closed form \<open>LT = LE and NE\<close> is true; calling \<open>__lt__\<close> on the pair, or
  evaluating \<open>Student('B',70) < Student('A',90)\<close>, ends in \<open>RecursionError\<close> at every stack
  depth.
\<close>

theorem derived_relation_recursion:
  "init_subclass (Class [(''__le__'', Def Student_le)] (Some Person) {}) = Inr Student
   \<and> ordering_root (Class [(''__le__'', Def Student_le)] (Some Person) {}) = ''__le__''
   \<and> \<not> is_concrete (Class [(''__le__'', Def Student_le)] (Some Person) {}) ''__lt__''
   \<and> getattr Student ''__lt__'' = Some Lt_from_le
   \<and> call (Suc d) Student ''__le__''
        \<lparr>ident = 2, name = ''B'', average = 70\<rparr> \<lparr>ident = 1, name = ''A'', average = 90\<rparr>
       = Inr (PBool True)
   \<and> call (Suc d) Student ''__eq__''
        \<lparr>ident = 2, name = ''B'', average = 70\<rparr> \<lparr>ident = 1, name = ''A'', average = 90\<rparr>
       = Inr (PBool False)
   \<and> map_of (closed_form (PBool True) (Inr (PBool False)) (Inr (PBool True))) (''__le__'', ''__lt__'')
       = Some (Inr (PBool True))
   \<and> call d Student ''__lt__''
        \<lparr>ident = 2, name = ''B'', average = 70\<rparr> \<lparr>ident = 1, name = ''A'', average = 90\<rparr>
       = Inl RecursionError
   \<and> richcompare d Student Py_LT
        \<lparr>ident = 2, name = ''B'', average = 70\<rparr> \<lparr>ident = 1, name = ''A'', average = 90\<rparr>
       = Inl RecursionError"
proof -
  let ?b = "\<lparr>ident = 2, name = ''B'', average = 70\<rparr>"
  let ?a = "\<lparr>ident = 1, name = ''A'', average = 90\<rparr>"
  have lt: "getattr Student ''__lt__'' = Some Lt_from_le"
    by (simp add: Student_def)
  have le: "call (Suc n) Student ''__le__'' ?b ?a = Inr (PBool True)" for n
    by (simp add: getattr_Student apply_func_def Student_le_def)
  have eq: "call (Suc n) Student ''__eq__'' ?b ?a = Inr (PBool False)" for n
    by (simp add: getattr_Student apply_func_def Person_eq_def)
  have ne_call: "call n Student ''__ne__'' x y = Inl RecursionError" for n x y
    by (rule call_ne_from_eq) (rule getattr_Student(2))
  have ne: "richcompare n Student Py_NE x y = Inl RecursionError" for n x y
    by (simp add: getattr_Student(2) ne_call)
  have spec: "map_of (closed_form (PBool True) (Inr (PBool False)) (Inr (PBool True)))
                (''__le__'', ''__lt__'') = Some (Inr (PBool True))"
    by (simp add: closed_form_def py_and_def)
  have c: "call n Student ''__lt__'' ?b ?a = Inl RecursionError" for n
  proof (cases n)
    case 0
    then show ?thesis by simp
  next
    case (Suc m)
    show ?thesis
    proof (cases m)
      case 0
      with Suc show ?thesis
        by (simp add: lt apply_func_def lt_from_le_def)
    next
      case (Suc k)
      have "call (Suc (Suc k)) Student ''__lt__'' ?b ?a
              = lt_from_le (\<lambda>n. call (Suc k) Student n ?b ?a)
                  (\<lambda>op. richcompare (Suc k) Student op ?b ?a)"
        by (simp only: call.simps lt option.case apply_func_def func.case)
      also have "\<dots> = Inl RecursionError"
        by (simp only: lt_from_le_def le ne sum.case pyval.distinct if_False py_and_def
              truthy.simps if_True)
      finally show ?thesis using \<open>n = Suc m\<close> \<open>m = Suc k\<close> by simp
    qed
  qed
  have r: "richcompare n Student Py_LT ?b ?a = Inl RecursionError" for n
    by (simp only: richcompare.simps opname.simps lt option.distinct if_False c sum.case)
  show ?thesis
    using Student_registered ordering_root_Student0 is_concrete_Student0(3) lt le eq spec c r
    by blast
qed

text \<open>
  C4. If the root relation returns \<open>NotImplemented\<close> on a pair, every synthesized
  ordering relation returns \<open>NotImplemented\<close> on it, and does so whatever the evaluation
  of \<open>a == b\<close> or \<open>a != b\<close> would give: the function does not depend on them.
\<close>

theorem not_implemented_short_circuit:
  assumes "init_subclass cls = Inr cls'"
    and "\<exists>op \<in> set compare_ops. is_concrete cls op"
    and "op \<in> set compare_ops" and "\<not> is_concrete cls op"
    and "call d cls' (ordering_root cls) a b = Inr NotImplemented"
  shows "call (Suc d) cls' op a b = Inr NotImplemented
         \<and> (\<exists>f. getattr cls' op = Some f
                \<and> (\<forall>cmp. apply_func f a b (\<lambda>n. call d cls' n a b) cmp = Inr NotImplemented))"
proof -
  from registered_derived(3)[OF assms(1-4)] obtain f where
    f: "getattr cls' op = Some f" "map_of (conversions_of (ordering_root cls)) op = Some f"
    by blast
  have ni: "apply_func f a b (\<lambda>n. call d cls' n a b) cmp = Inr NotImplemented" for cmp
    by (rule synthesized_not_implemented[OF registered_root(1)[OF assms(1,2)] assms(3)
          registered_derived(1)[OF assms(1-4)] f(2)])
       (simp add: assms(5))
  then show ?thesis by (simp add: f(1))
qed

theorem not_implemented_short_circuit_witness:
  "init_subclass (Class [(''__eq__'', Def Person_eq), (''__lt__'', Def (\<lambda>self other. NotImplemented))]
       (Some Sortable) {})
     = Inr (update_abstractmethods (derive_ordering
         (setattr (Class [(''__eq__'', Def Person_eq), (''__lt__'', Def (\<lambda>self other. NotImplemented))]
            (Some Sortable) {}) ''__ne__'' Ne_from_eq)))
   \<and> ordering_root (Class [(''__eq__'', Def Person_eq), (''__lt__'', Def (\<lambda>self other. NotImplemented))]
       (Some Sortable) {}) = ''__lt__''
   \<and> \<not> is_concrete (Class [(''__eq__'', Def Person_eq), (''__lt__'', Def (\<lambda>self other. NotImplemented))]
       (Some Sortable) {}) ''__gt__''
   \<and> richcompare (Suc 0)
        (update_abstractmethods (derive_ordering
         (setattr (Class [(''__eq__'', Def Person_eq), (''__lt__'', Def (\<lambda>self other. NotImplemented))]
            (Some Sortable) {}) ''__ne__'' Ne_from_eq)))
        Py_NE \<lparr>ident = 1, name = ''A'', average = 90\<rparr> \<lparr>ident = 2, name = ''B'', average = 70\<rparr>
       = Inl RecursionError
   \<and> call (Suc (Suc 0))
        (update_abstractmethods (derive_ordering
         (setattr (Class [(''__eq__'', Def Person_eq), (''__lt__'', Def (\<lambda>self other. NotImplemented))]
            (Some Sortable) {}) ''__ne__'' Ne_from_eq)))
        ''__gt__'' \<lparr>ident = 1, name = ''A'', average = 90\<rparr> \<lparr>ident = 2, name = ''B'', average = 70\<rparr>
       = Inr NotImplemented"
proof -
  let ?c = "Class [(''__eq__'', Def Person_eq), (''__lt__'', Def (\<lambda>self other. NotImplemented))]
       (Some Sortable) {} :: student pyclass"
  define c' where
    "c' = update_abstractmethods (derive_ordering (setattr ?c ''__ne__'' Ne_from_eq))"
  let ?a = "\<lparr>ident = 1, name = ''A'', average = 90\<rparr>"
  let ?b = "\<lparr>ident = 2, name = ''B'', average = 70\<rparr>"
  have con: "is_concrete ?c ''__eq__''" "\<not> is_concrete ?c ''__ne__''" "is_concrete ?c ''__lt__''"
    "\<not> is_concrete ?c ''__le__''" "\<not> is_concrete ?c ''__gt__''" "\<not> is_concrete ?c ''__ge__''"
    by (simp_all add: is_concrete_def Sortable_def)
  have reg: "init_subclass ?c = Inr c'"
    by (simp add: init_subclass_def con c'_def)
  have ex: "\<exists>op \<in> set compare_ops. is_concrete ?c op"
    using con(3) compare_ops_mem(1) by blast
  have r: "ordering_root ?c = ''__lt__''"
    using ex by (simp add: ordering_root_eq con)
  have lt: "getattr c' ''__lt__'' = Some (Def (\<lambda>self other. NotImplemented))"
    and ne: "getattr c' ''__ne__'' = Some Ne_from_eq"
    using init_subclass_getattr[OF reg, of "''__lt__''"] init_subclass_getattr[OF reg, of "''__ne__''"]
    by (simp_all add: con)
  have root: "call (Suc 0) c' (ordering_root ?c) ?a ?b = Inr NotImplemented"
    by (simp add: r lt apply_func_def)
  have nefail: "richcompare (Suc 0) c' Py_NE ?a ?b = Inl RecursionError"
    by (simp add: ne apply_func_def ne_from_eq_def)
  from not_implemented_short_circuit[OF reg ex compare_ops_mem(3) con(5) root]
  have "call (Suc (Suc 0)) c' ''__gt__'' ?a ?b = Inr NotImplemented" by blast
  with reg r con(5) nefail show ?thesis unfolding c'_def by blast
qed

text \<open>
  C5. Registration raises the definition error exactly when the class has neither a concrete
  \<open>__eq__\<close> nor a concrete \<open>__ne__\<close>, and it raises nothing else: the ordering relations
  play no part in it.
\<close>

theorem definition_error_iff:
  "(init_subclass cls = Inl (TypeError Must_define_eq_or_ne))
      = (\<not> is_concrete cls ''__eq__'' \<and> \<not> is_concrete cls ''__ne__'')
   \<and> isl (init_subclass cls)
      = (\<not> is_concrete cls ''__eq__'' \<and> \<not> is_concrete cls ''__ne__'')"
  by (simp add: init_subclass_def Let_def)

theorem definition_error_iff_witness:
  "\<not> isl (init_subclass (Class [(''__eq__'', Def Person_eq)] (Some Sortable) {}))
   \<and> \<not> is_concrete (Class [(''__eq__'', Def Person_eq)] (Some Sortable) {}) ''__lt__''
   \<and> \<not> is_concrete (Class [(''__eq__'', Def Person_eq)] (Some Sortable) {}) ''__le__''
   \<and> \<not> is_concrete (Class [(''__eq__'', Def Person_eq)] (Some Sortable) {}) ''__gt__''
   \<and> \<not> is_concrete (Class [(''__eq__'', Def Person_eq)] (Some Sortable) {}) ''__ge__''
   \<and> init_subclass (Class [] (Some Sortable) {} :: student pyclass)
       = Inl (TypeError Must_define_eq_or_ne)"
proof -
  have "\<not> is_concrete (Class [] (Some Sortable) {} :: student pyclass) ''__eq__''"
       "\<not> is_concrete (Class [] (Some Sortable) {} :: student pyclass) ''__ne__''"
    by (simp_all add: is_concrete_def Sortable_def)
  then show ?thesis
    using definition_error_iff[of "Class [(''__eq__'', Def Person_eq)] (Some Sortable) {}"]
          definition_error_iff[of "Class [] (Some Sortable) {} :: student pyclass"]
          is_concrete_Person0
    by simp
qed

text \<open>
  C6. Registration leaves every relation that is already concrete for the class as it is,
  whether the class defines it or inherits it, in the equality group and in the ordering
  group; and registering the resulting class again returns the same class.
\<close>

theorem registration_preserves_concrete:
  assumes "init_subclass cls = Inr cls'"
  shows "(\<forall>n. is_concrete cls n \<longrightarrow> getattr cls' n = getattr cls n)
       \<and> init_subclass cls' = Inr cls'"
proof -
  have "getattr cls' n = getattr cls n" if "is_concrete cls n" for n
    using that by (auto simp add: init_subclass_getattr[OF assms])
  moreover have "init_subclass cls' = Inr cls'"
  proof -
    from assms obtain X where X: "cls' = update_abstractmethods X"
      by (rule registered_is_update)
    have "update_abstractmethods cls' = cls'"
      unfolding X by (rule update_abstractmethods_idem)
    then show ?thesis
      by (simp add: init_subclass_def registered_equality_concrete[OF assms]
            derive_ordering_registered[OF assms])
  qed
  ultimately show ?thesis by blast
qed

theorem registration_preserves_concrete_witness:
  "init_subclass (Class [(''__le__'', Def Student_le)] (Some Person) {}) = Inr Student
   \<and> is_concrete (Class [(''__le__'', Def Student_le)] (Some Person) {}) ''__le__''
   \<and> is_concrete (Class [(''__le__'', Def Student_le)] (Some Person) {}) ''__eq__''
   \<and> getattr Student ''__le__'' = Some (Def Student_le)
   \<and> getattr Student ''__eq__'' = Some (Def Person_eq)
   \<and> init_subclass Student = Inr Student"
proof -
  from registration_preserves_concrete[OF Student_registered]
  have "init_subclass Student = Inr Student" by blast
  then show ?thesis
    using Student_registered is_concrete_Student0 getattr_Student by simp
qed

text \<open>
  C7, as amended. For every class that has a concrete \<open>__eq__\<close> or \<open>__ne__\<close>, whose four
  ordering relations are abstract and recorded as abstract by its base class, registration
  succeeds, the four relations stay in \<open>__abstractmethods__\<close>, instantiating the class
  raises \<open>TypeError\<close>, and the ordering relations, called directly, return \<open>None\<close>.
\<close>

theorem equality_only_stays_abstract:
  assumes "is_concrete cls ''__eq__'' \<or> is_concrete cls ''__ne__''"
    and "base cls = Some b"
    and "\<forall>op \<in> set compare_ops. op \<in> abstractmethods b \<and> isabstractmethod (getattr cls op)"
  shows "\<exists>cls'. init_subclass cls = Inr cls'
           \<and> set compare_ops \<subseteq> abstractmethods cls'
           \<and> instantiate cls' = Inl (TypeError Abstract_class)
           \<and> (\<forall>op \<in> set compare_ops. \<forall>d a b. call (Suc d) cls' op a b = Inr PNone)"
proof -
  from assms(1) obtain cls' where reg: "init_subclass cls = Inr cls'"
    by (auto simp: init_subclass_def Let_def)
  have nc: "\<not> is_concrete cls op" if "op \<in> set compare_ops" for op
    using assms(3) that by (auto simp: is_concrete_def isabstractmethod_iff)
  then have empty: "\<not> (\<exists>op \<in> set compare_ops. is_concrete cls op)" by blast
  have g: "getattr cls' op = Some Abstractmethod" if "op \<in> set compare_ops" for op
  proof -
    from that eq_ne_not_compare_ops have "op \<noteq> ''__ne__''" "op \<noteq> ''__eq__''" by auto
    with empty have "getattr cls' op = getattr cls op"
      by (simp add: init_subclass_getattr[OF reg])
    with assms(3) that show ?thesis by (simp add: isabstractmethod_iff)
  qed
  from reg obtain X where X: "cls' = update_abstractmethods X" "base X = base cls"
    by (rule registered_is_update)
  have mem: "op \<in> abstractmethods cls'" if "op \<in> set compare_ops" for op
  proof -
    from g[OF that] have "isabstractmethod (getattr X op)" by (simp add: X(1))
    with assms(2,3) that show ?thesis
      unfolding X(1) mem_abstractmethods_update by (simp add: X(2))
  qed
  then have sub: "set compare_ops \<subseteq> abstractmethods cls'" by blast
  then have "abstractmethods cls' \<noteq> {}" using compare_ops_mem(1) by blast
  then have inst: "instantiate cls' = Inl (TypeError Abstract_class)"
    by (simp add: instantiate_def)
  have "call (Suc d) cls' op a b = Inr PNone" if "op \<in> set compare_ops" for op d a b
    by (simp add: g[OF that] apply_func_def)
  with reg sub inst show ?thesis by blast
qed

theorem equality_only_stays_abstract_witness:
  "is_concrete (Class [(''__eq__'', Def Person_eq)] (Some Sortable) {}) ''__eq__''
   \<and> init_subclass (Class [(''__eq__'', Def Person_eq)] (Some Sortable) {}) = Inr Person
   \<and> {''__lt__'', ''__le__'', ''__gt__'', ''__ge__''} \<subseteq> abstractmethods Person
   \<and> instantiate Person = Inl (TypeError Abstract_class)
   \<and> call (Suc 0) Person ''__ge__''
        \<lparr>ident = 1, name = ''A'', average = 90\<rparr> \<lparr>ident = 2, name = ''B'', average = 70\<rparr>
       = Inr PNone"
proof -
  let ?c = "Class [(''__eq__'', Def Person_eq)] (Some Sortable) {} :: student pyclass"
  have h3: "\<forall>op \<in> set compare_ops.
              op \<in> abstractmethods (Sortable :: student pyclass) \<and> isabstractmethod (getattr ?c op)"
    by (simp add: compare_ops_def Sortable_def)
  have h1: "is_concrete ?c ''__eq__'' \<or> is_concrete ?c ''__ne__''"
    using is_concrete_Person0(1) by blast
  have h2: "base ?c = Some Sortable" by simp
  from equality_only_stays_abstract[OF h1 h2 h3] Person_registered
  have "set compare_ops \<subseteq> abstractmethods Person"
    and "instantiate Person = Inl (TypeError Abstract_class)"
    and "\<forall>op \<in> set compare_ops. \<forall>d a b. call (Suc d) Person op a b = Inr PNone"
    by auto
  then show ?thesis
    using is_concrete_Person0(1) Person_registered compare_ops_mem(4)
    by (simp add: compare_ops_set)
qed

text \<open>
  C7, as stated, says that such a class registers without error, that \<open>equals\<close> works on
  its instances, and that calling an ordering relation on two instances raises a capability
  error at that call. On \<open>Person\<close> of the example the class registers, but it cannot be
  instantiated, and \<open>__lt__\<close>, called directly or through \<open><\<close>, returns \<open>None\<close> and
  raises nothing.
\<close>

theorem equality_only_counterexample:
  "init_subclass (Class [(''__eq__'', Def Person_eq)] (Some Sortable) {}) = Inr Person
   \<and> \<not> is_concrete (Class [(''__eq__'', Def Person_eq)] (Some Sortable) {}) ''__lt__''
   \<and> \<not> is_concrete (Class [(''__eq__'', Def Person_eq)] (Some Sortable) {}) ''__le__''
   \<and> \<not> is_concrete (Class [(''__eq__'', Def Person_eq)] (Some Sortable) {}) ''__gt__''
   \<and> \<not> is_concrete (Class [(''__eq__'', Def Person_eq)] (Some Sortable) {}) ''__ge__''
   \<and> instantiate Person = Inl (TypeError Abstract_class)
   \<and> call (Suc 999) Person ''__lt__''
        \<lparr>ident = 1, name = ''A'', average = 90\<rparr> \<lparr>ident = 2, name = ''B'', average = 70\<rparr>
       = Inr PNone
   \<and> richcompare (Suc 999) Person Py_LT
        \<lparr>ident = 1, name = ''A'', average = 90\<rparr> \<lparr>ident = 2, name = ''B'', average = 70\<rparr>
       = Inr PNone"
proof -
  have g: "getattr Person ''__lt__'' = Some Abstractmethod"
    by (simp add: Person_def Sortable_def)
  have i: "instantiate Person = Inl (TypeError Abstract_class)"
    by (simp add: instantiate_def Person_def)
  have c: "call (Suc d) Person ''__lt__'' a b = Inr PNone" for d a b
    by (simp add: g apply_func_def)
  have r: "richcompare (Suc d) Person Py_LT a b = Inr PNone" for d a b
    by (simp add: g apply_func_def)
  show ?thesis
    using Person_registered is_concrete_Person0 i c[of 999] r[of 999] by blast
qed

text \<open>
  C8. After a successful registration of a class that supplies at least one ordering
  relation, each of the six relations is concrete and none of them is in
  \<open>__abstractmethods__\<close>, which the hook recomputes after synthesis; when the class has no
  abstract member other than comparison relations, \<open>__abstractmethods__\<close> is empty and the
  class can be instantiated.
\<close>

theorem all_relations_concrete:
  assumes "init_subclass cls = Inr cls'"
    and "\<exists>op \<in> set compare_ops. is_concrete cls op"
  shows "(\<forall>n \<in> set relation_names. is_concrete cls' n \<and> n \<notin> abstractmethods cls')
       \<and> ((\<forall>n. isabstractmethod (getattr cls n) \<longrightarrow> n \<in> set relation_names)
            \<longrightarrow> abstractmethods cls' = {} \<and> instantiate cls' = Inr ())"
proof -
  have con: "is_concrete cls' n" if "n \<in> set relation_names" for n
    using that registered_equality_concrete[OF assms(1)] registered_ordering_concrete[OF assms]
    unfolding relation_names_set by auto
  have notabs: "n \<notin> abstractmethods cls'" if "is_concrete cls' n" for n
  proof
    assume "n \<in> abstractmethods cls'"
    then have "isabstractmethod (getattr cls' n)" by (rule registered_abstract[OF assms(1)])
    with that show False by (auto simp: is_concrete_def split: option.splits)
  qed
  have empty: "abstractmethods cls' = {}"
    if only: "\<forall>n. isabstractmethod (getattr cls n) \<longrightarrow> n \<in> set relation_names"
  proof -
    have "n \<notin> abstractmethods cls'" for n
    proof
      assume m: "n \<in> abstractmethods cls'"
      then have "isabstractmethod (getattr cls' n)" by (rule registered_abstract[OF assms(1)])
      then have "isabstractmethod (getattr cls n)" by (rule registered_abstract_origin[OF assms(1)])
      with only have "n \<in> set relation_names" by blast
      then have "is_concrete cls' n" by (rule con)
      then have "n \<notin> abstractmethods cls'" by (rule notabs)
      with m show False by blast
    qed
    then show ?thesis by blast
  qed
  show ?thesis
    using con notabs empty by (simp add: instantiate_def)
qed

theorem all_relations_concrete_witness:
  "init_subclass (Class [(''__le__'', Def Student_le)] (Some Person) {}) = Inr Student
   \<and> is_concrete (Class [(''__le__'', Def Student_le)] (Some Person) {}) ''__le__''
   \<and> is_concrete Student ''__eq__'' \<and> is_concrete Student ''__ne__''
   \<and> is_concrete Student ''__lt__'' \<and> is_concrete Student ''__le__''
   \<and> is_concrete Student ''__gt__'' \<and> is_concrete Student ''__ge__''
   \<and> abstractmethods Student = {}
   \<and> instantiate Student = Inr ()"
proof -
  let ?c = "Class [(''__le__'', Def Student_le)] (Some Person) {} :: student pyclass"
  have ex: "\<exists>op \<in> set compare_ops. is_concrete ?c op"
    using is_concrete_Student0(4) compare_ops_mem(2) by blast
  have only: "\<forall>n. isabstractmethod (getattr ?c n) \<longrightarrow> n \<in> set relation_names"
    using Student0_only_relations_abstract by blast
  from all_relations_concrete[OF Student_registered ex] only
  have "\<forall>n \<in> set relation_names. is_concrete Student n"
    and "abstractmethods Student = {}" and "instantiate Student = Inr ()"
    by blast+
  then show ?thesis
    using Student_registered is_concrete_Student0(4)
    by (simp add: relation_names_def)
qed

text \<open>
  C9. With \<open>Person\<close> defining \<open>__eq__\<close> on the name and \<open>Student\<close> defining \<open>__le__\<close> on
  the average, both class statements succeed, \<open>Student\<close> can be instantiated,
  \<open>Student('A',90) > Student('B',70)\<close> is true, \<open>Student('A',90) <= Student('A',90)\<close> is
  true, and \<open>Student('A',90) == Student('B',90)\<close> is false, whatever stack depth is left
  beyond the two frames needed.
\<close>

theorem student_scenario:
  "class_statement [(''__eq__'', Def Person_eq)] Sortable = Inr Person
   \<and> class_statement [(''__le__'', Def Student_le)] Person = Inr Student
   \<and> instantiate Student = Inr ()
   \<and> richcompare (Suc (Suc d)) Student Py_GT
      \<lparr>ident = 1, name = ''A'', average = 90\<rparr> \<lparr>ident = 2, name = ''B'', average = 70\<rparr>
     = Inr (PBool True)
   \<and> richcompare (Suc d) Student Py_LE
      \<lparr>ident = 1, name = ''A'', average = 90\<rparr> \<lparr>ident = 2, name = ''A'', average = 90\<rparr>
     = Inr (PBool True)
   \<and> richcompare (Suc d) Student Py_EQ
      \<lparr>ident = 1, name = ''A'', average = 90\<rparr> \<lparr>ident = 2, name = ''B'', average = 90\<rparr>
     = Inr (PBool False)"
proof -
  have "instantiate Student = Inr ()"
    by (simp add: instantiate_def Student_def)
  then show ?thesis
    by (simp add: Person_statement Student_statement getattr_Student apply_func_def
          gt_from_le_def Student_le_def Person_eq_def py_not_def)
qed

text \<open>
  C10. A synthesized ordering relation looks its root up on the class of \<open>self\<close> at the
  call. When a subclass overrides the root relation of its parent and inherits a relation
  the parent had synthesized, registration of the subclass keeps the inherited function (the
  same one the parent has, nothing is synthesized again), and calling it on the subclass
  computes the closed form of the subclass's root implementation: \<open>NotImplemented\<close> when
  that returns \<open>NotImplemented\<close>, the table entry at its value otherwise.
\<close>

theorem dynamic_root_lookup:
  assumes "init_subclass parent0 = Inr parent"
    and "\<exists>op \<in> set compare_ops. is_concrete parent0 op"
    and "op \<in> set compare_ops" and "\<not> is_concrete parent0 op"
    and "map_of body (ordering_root parent0) = Some (Def g)"
    and "map_of body op = None"
    and "init_subclass (Class body (Some parent) s) = Inr sub"
  shows "getattr sub op = getattr parent op
       \<and> getattr sub op = map_of (conversions_of (ordering_root parent0)) op
       \<and> getattr sub (ordering_root parent0) = Some (Def g)
       \<and> (g a b = NotImplemented \<longrightarrow> call (Suc (Suc d)) sub op a b = Inr NotImplemented)
       \<and> (g a b \<noteq> NotImplemented \<longrightarrow>
            map_of (closed_form (g a b) (richcompare (Suc d) sub Py_EQ a b)
                      (richcompare (Suc d) sub Py_NE a b))
              (ordering_root parent0, op)
            = Some (call (Suc (Suc d)) sub op a b))"
proof -
  let ?r = "ordering_root parent0"
  let ?sub0 = "Class body (Some parent) s"
  note r = registered_root(1)[OF assms(1,2)]
  note ne = registered_derived(1)[OF assms(1-4)]
  from registered_derived(3)[OF assms(1-4)] obtain f where
    f: "getattr parent op = Some f" "map_of (conversions_of ?r) op = Some f"
    by blast
  have f_con: "\<not> isabstractmethod (Some f)"
    by (rule conversions_not_abstract[OF f(2)])
  have sub0_op: "getattr ?sub0 op = Some f"
    by (simp add: assms(6) f(1))
  then have c_op: "is_concrete ?sub0 op"
    using f_con by (simp add: is_concrete_def)
  have sub0_r: "getattr ?sub0 ?r = Some (Def g)"
    by (simp add: assms(5))
  then have c_r: "is_concrete ?sub0 ?r"
    by (simp add: is_concrete_def)
  have sub_op: "getattr sub op = Some f"
    using registration_getattr_concrete[OF assms(7) c_op] sub0_op by simp
  have sub_r: "getattr sub ?r = Some (Def g)"
    using registration_getattr_concrete[OF assms(7) c_r] sub0_r by simp
  have root: "call (Suc d) sub ?r a b = Inr (g a b)"
    by (simp add: sub_r apply_func_def)
  have app: "call (Suc (Suc d)) sub op a b
               = apply_func f a b (\<lambda>n. call (Suc d) sub n a b)
                   (\<lambda>op. richcompare (Suc d) sub op a b)"
    by (simp only: call.simps sub_op option.case)
  have ni: "call (Suc (Suc d)) sub op a b = Inr NotImplemented" if "g a b = NotImplemented"
    unfolding app
    by (rule synthesized_not_implemented[OF r assms(3) ne f(2)]) (simp only: root that)
  have cf: "map_of (closed_form (g a b) (richcompare (Suc d) sub Py_EQ a b)
                      (richcompare (Suc d) sub Py_NE a b)) (?r, op)
            = Some (call (Suc (Suc d)) sub op a b)" if "g a b \<noteq> NotImplemented"
    unfolding app
    by (rule synthesized_closed_form[OF r assms(3) ne f(2)], rule root, rule that)
  show ?thesis
    using sub_op f sub_r ni cf by simp
qed

theorem dynamic_root_lookup_witness:
  "init_subclass (Class [(''__le__'', Def Student_le)] (Some Person) {}) = Inr Student
   \<and> ordering_root (Class [(''__le__'', Def Student_le)] (Some Person) {}) = ''__le__''
   \<and> \<not> is_concrete (Class [(''__le__'', Def Student_le)] (Some Person) {}) ''__gt__''
   \<and> init_subclass
        (Class [(''__le__'', Def (\<lambda>self other. PBool (ident self \<le> ident other)))]
           (Some Student) {})
       = Inr (update_abstractmethods (derive_ordering
           (Class [(''__le__'', Def (\<lambda>self other. PBool (ident self \<le> ident other)))]
              (Some Student) {})))
   \<and> getattr (update_abstractmethods (derive_ordering
           (Class [(''__le__'', Def (\<lambda>self other. PBool (ident self \<le> ident other)))]
              (Some Student) {}))) ''__gt__''
       = Some Gt_from_le
   \<and> call (Suc (Suc 0)) Student ''__gt__''
        \<lparr>ident = 1, name = ''A'', average = 90\<rparr> \<lparr>ident = 2, name = ''B'', average = 70\<rparr>
       = Inr (PBool True)
   \<and> call (Suc (Suc 0))
        (update_abstractmethods (derive_ordering
           (Class [(''__le__'', Def (\<lambda>self other. PBool (ident self \<le> ident other)))]
              (Some Student) {})))
        ''__gt__''
        \<lparr>ident = 1, name = ''A'', average = 90\<rparr> \<lparr>ident = 2, name = ''B'', average = 70\<rparr>
       = Inr (PBool False)"
proof -
  let ?p0 = "Class [(''__le__'', Def Student_le)] (Some Person) {} :: student pyclass"
  let ?g = "\<lambda>self other :: student. PBool (ident self \<le> ident other)"
  let ?body = "[(''__le__'', Def ?g)]"
  let ?s0 = "Class ?body (Some Student) {} :: student pyclass"
  let ?a = "\<lparr>ident = 1, name = ''A'', average = 90\<rparr>"
  let ?b = "\<lparr>ident = 2, name = ''B'', average = 70\<rparr>"
  define sub where "sub = update_abstractmethods (derive_ordering ?s0)"
  have con: "is_concrete ?s0 ''__eq__''" "is_concrete ?s0 ''__ne__''"
    by (simp_all add: is_concrete_def Student_def Person_def)
  have reg: "init_subclass ?s0 = Inr sub"
    by (simp add: init_subclass_def con sub_def)
  have ex: "\<exists>op \<in> set compare_ops. is_concrete ?p0 op"
    using is_concrete_Student0(4) compare_ops_mem(2) by blast
  have b1: "map_of ?body (ordering_root ?p0) = Some (Def ?g)"
    by (simp add: ordering_root_Student0)
  have b2: "map_of ?body ''__gt__'' = None"
    by simp
  have g: "?g ?a ?b = PBool True" by simp
  have parent_gt: "call (Suc (Suc 0)) Student ''__gt__'' ?a ?b = Inr (PBool True)"
    by (simp add: getattr_Student apply_func_def gt_from_le_def Student_le_def py_not_def)
  from dynamic_root_lookup[OF Student_registered ex compare_ops_mem(3) is_concrete_Student0(5)
         b1 b2 reg, of ?a ?b 0]
  have inh: "getattr sub ''__gt__'' = getattr Student ''__gt__''"
    and cf: "map_of (closed_form (PBool True) (richcompare (Suc 0) sub Py_EQ ?a ?b)
                      (richcompare (Suc 0) sub Py_NE ?a ?b))
              (ordering_root ?p0, ''__gt__'')
            = Some (call (Suc (Suc 0)) sub ''__gt__'' ?a ?b)"
    unfolding g by blast+
  from cf have sub_gt: "call (Suc (Suc 0)) sub ''__gt__'' ?a ?b = Inr (PBool False)"
    by (simp add: ordering_root_Student0 closed_form_def py_not_def del: call.simps richcompare.simps)
  from inh have sub_f: "getattr sub ''__gt__'' = Some Gt_from_le"
    by (simp add: getattr_Student)
  show ?thesis
    using Student_registered ordering_root_Student0 is_concrete_Student0(5) reg sub_f parent_gt sub_gt
    unfolding sub_def by blast
qed

end
